theory Spec2Isabelle
  imports Main "HOL-Library.Word"
begin

section \<open>Proof-of-Authority header processing (consensus/ibft/poa.go)\<close>

subsection \<open>Data model\<close>

text \<open>
  Modelled from the spec: \<^verbatim>\<open>types.Address\<close> and \<^verbatim>\<open>types.Nonce\<close> are declared outside the
  files at hand. The spec gives an address as an opaque 20-byte identifier with equality and
  a distinguished ZERO value, and a nonce as an opaque 8-byte field. Twenty bytes are read
  as one 160-bit word and eight bytes as one 64-bit word; comparing the byte arrays with
  \<^verbatim>\<open>==\<close> is equality of these words, and the all-zero array is the word \<open>0\<close>.
\<close>

type_synonym address = "160 word"
type_synonym nonce = "64 word"
type_synonym uint64 = "64 word"

definition ZeroAddress :: address where
  "ZeroAddress = 0"

text \<open>
  The fields of \<^verbatim>\<open>types.Header\<close> that \<^verbatim>\<open>processHeadersHook\<close> reads:
  \<^verbatim>\<open>params.header.Number\<close>, \<^verbatim>\<open>params.header.Miner\<close> and \<^verbatim>\<open>params.header.Nonce\<close>.
\<close>

record Header =
  Number :: uint64
  Miner :: address
  Nonce :: nonce

text \<open>
  A vote, with the field names of the composite literal in the hook:
  \<^verbatim>\<open>&Vote{Validator: params.proposer, Address: params.header.Miner, Authorize: authorize}\<close>.
\<close>

record Vote =
  Validator :: address
  Address :: address
  Authorize :: bool

text \<open>
  Modelled from the spec: the type \<^verbatim>\<open>ValidatorSet\<close> and its methods \<^verbatim>\<open>Includes\<close>,
  \<^verbatim>\<open>Add\<close>, \<^verbatim>\<open>Del\<close> and \<^verbatim>\<open>Len\<close> are declared outside the files at hand. The
  spec (4.1) gives an ordered container of addresses in insertion order with
  \<^verbatim>\<open>contains(a)\<close>; \<^verbatim>\<open>add(a)\<close>, which inserts if absent and is a no-op if present;
  \<^verbatim>\<open>remove(a)\<close>, which removes if present, is a no-op otherwise and does not reorder the
  surviving entries; and \<^verbatim>\<open>len()\<close>.
\<close>

type_synonym ValidatorSet = "address list"

definition Includes :: "ValidatorSet \<Rightarrow> address \<Rightarrow> bool" where
  "Includes v addr = (addr \<in> set v)"

definition Add :: "ValidatorSet \<Rightarrow> address \<Rightarrow> ValidatorSet" where
  "Add v addr = (if addr \<in> set v then v else v @ [addr])"

definition Del :: "ValidatorSet \<Rightarrow> address \<Rightarrow> ValidatorSet" where
  "Del v addr = filter (\<lambda>a. a \<noteq> addr) v"

definition Len :: "ValidatorSet \<Rightarrow> nat" where
  "Len v = length v"

text \<open>
  Modelled from the spec: the type \<^verbatim>\<open>Snapshot\<close> and its methods \<^verbatim>\<open>Count\<close> and
  \<^verbatim>\<open>RemoveVotes\<close> are declared outside the files at hand. The spec (3, 4.2) gives a
  snapshot as a block number, a validator set and a sequence of votes;
  \<^verbatim>\<open>countMatching(pred)\<close> counts the votes that satisfy a predicate and
  \<^verbatim>\<open>removeVotes(pred)\<close> drops every matching vote, keeping the order of the survivors.
  The hook reads and writes the fields \<^verbatim>\<open>Set\<close> and \<^verbatim>\<open>Votes\<close>. A count is a
  slice length, hence a natural number.
\<close>

record Snapshot =
  SnapNumber :: uint64
  Set :: ValidatorSet
  Votes :: "Vote list"

definition Count :: "Snapshot \<Rightarrow> (Vote \<Rightarrow> bool) \<Rightarrow> nat" where
  "Count s h = length (filter h (Votes s))"

definition RemoveVotes :: "Snapshot \<Rightarrow> (Vote \<Rightarrow> bool) \<Rightarrow> Snapshot" where
  "RemoveVotes s h = s\<lparr>Votes := filter (\<lambda>v. \<not> h v) (Votes s)\<rparr>"

subsection \<open>What the hook reads from its surroundings\<close>

text \<open>
  \<^verbatim>\<open>poa.ibft.epochSize\<close> is a field of the engine, and \<^verbatim>\<open>nonceAuthVote\<close> and
  \<^verbatim>\<open>nonceDropVote\<close> are package-level values; none of the three is declared in the
  files at hand, so they are parameters of the model. The spec (6) calls them
  configuration: \<^verbatim>\<open>epochSize\<close> a positive integer, the two nonces the 8-byte sentinels
  for admission and eviction.
\<close>

record Config =
  epochSize :: uint64
  nonceAuthVote :: nonce
  nonceDropVote :: nonce

text \<open>
  The hook reaches two collaborators it does not own: the callback \<^verbatim>\<open>params.saveSnap\<close>
  and the store behind \<^verbatim>\<open>poa.ibft.store.deleteLower\<close>. Their bodies are outside the hook;
  each invocation is recorded, with its argument, in the order the hook makes it. The
  callback is handed to the hook together with the pointer \<^verbatim>\<open>params.snap\<close> and, by the
  spec (3), seals the working snapshot: what it finds there depends on what the hook has
  written before the call. The record of a \<^verbatim>\<open>saveSnap\<close> invocation therefore also holds
  the working snapshot as it stands at the moment of the call.
\<close>

datatype Call = SaveSnap Header Snapshot | DeleteLower uint64

text \<open>
  The state the hook works on: the snapshot behind the pointer \<^verbatim>\<open>params.snap\<close>, mutated in
  place, and the invocations made so far.
\<close>

record HookState =
  snap :: Snapshot
  calls :: "Call list"

text \<open>
  The two errors built by \<^verbatim>\<open>fmt.Errorf\<close>, and the run-time panic of Go's \<^verbatim>\<open>%\<close> on a
  zero divisor.
\<close>

datatype Error =
  IncorrectVoteNonce
  | MoreThanOneProposal
  | PanicDivideByZero

subsection \<open>processHeadersHook\<close>

text \<open>
  The hook returns Go's \<^verbatim>\<open>error\<close> (\<open>None\<close> for \<^verbatim>\<open>nil\<close>) together with the state it
  leaves behind, since the snapshot is mutated through a pointer and stays mutated
  whatever is returned.

  Integers are as in the source on a 64-bit target. \<^verbatim>\<open>number\<close> and \<^verbatim>\<open>epochSize\<close> are
  \<^verbatim>\<open>uint64\<close>: \<open>mod\<close> and \<open>div\<close> on words are the unsigned operations.
  \<^verbatim>\<open>int(number/epochSize) - 2\<close> keeps the 64 bits and reads them as two's complement, the
  subtraction wraps, and \<^verbatim>\<open>epoch > 0\<close> is the signed comparison \<open>0 <s epoch\<close>;
  \<^verbatim>\<open>uint64(epoch) * epochSize\<close> is the wrapping product of the same bits.
  \<^verbatim>\<open>Count\<close> and \<^verbatim>\<open>Len\<close> return slice lengths, and \<^verbatim>\<open>/2\<close> on them is \<open>div 2\<close>.
\<close>

definition processHeadersHook ::
  "Config \<Rightarrow> Header \<Rightarrow> address \<Rightarrow> HookState \<Rightarrow> Error option \<times> HookState" where
  "processHeadersHook cfg header proposer st =
    (let number = Number header in
     if epochSize cfg = 0 then (Some PanicDivideByZero, st)
     else if number mod epochSize cfg = 0 then
       (let st1 = st\<lparr>snap := (snap st)\<lparr>Votes := []\<rparr>\<rparr>;
            st2 = st1\<lparr>calls := calls st1 @ [SaveSnap header (snap st1)]\<rparr>;
            epoch = number div epochSize cfg - 2
        in if 0 <s epoch
           then (let purgeBlock = epoch * epochSize cfg
                 in (None, st2\<lparr>calls := calls st2 @ [DeleteLower purgeBlock]\<rparr>))
           else (None, st2))
     else if Miner header = ZeroAddress then (None, st)
     else if Nonce header \<noteq> nonceAuthVote cfg \<and> Nonce header \<noteq> nonceDropVote cfg
       then (Some IncorrectVoteNonce, st)
     else
       (let authorize = (Nonce header = nonceAuthVote cfg) in
        if authorize \<and> Includes (Set (snap st)) (Miner header) then (None, st)
        else if \<not> authorize \<and> \<not> Includes (Set (snap st)) (Miner header) then (None, st)
        else
          (let voteCount = Count (snap st)
                 (\<lambda>v. Validator v = proposer \<and> Address v = Miner header)
           in if 1 < voteCount then (Some MoreThanOneProposal, st)
              else
                (let s1 = (if voteCount = 0
                           then (snap st)\<lparr>Votes := Votes (snap st) @
                                  [\<lparr>Validator = proposer, Address = Miner header,
                                    Authorize = authorize\<rparr>]\<rparr>
                           else snap st);
                     tally = Count s1 (\<lambda>v. Address v = Miner header)
                 in if Len (Set s1) div 2 < tally
                    then
                      (let s2 = (if authorize
                                 then s1\<lparr>Set := Add (Set s1) (Miner header)\<rparr>
                                 else RemoveVotes (s1\<lparr>Set := Del (Set s1) (Miner header)\<rparr>)
                                        (\<lambda>v. Validator v = Miner header));
                           s3 = RemoveVotes s2 (\<lambda>v. Address v = Miner header)
                       in (None, st\<lparr>snap := s3\<rparr>))
                    else (None, st\<lparr>snap := s1\<rparr>)))))"

subsection \<open>Invariants of a snapshot\<close>

text \<open>
  Voter membership, as the spec (8) words it: the voter of every vote of the snapshot is in
  the validator set of the snapshot.
\<close>

definition voterMembership :: "Snapshot \<Rightarrow> bool" where
  "voterMembership s = (\<forall>v \<in> set (Votes s). Includes (Set s) (Validator v))"

section \<open>Secrets manager types (secrets/secrets.go)\<close>

type_synonym SecretsManagerType = string

definition Local :: SecretsManagerType where
  "Local = ''local''"

definition HashicorpVault :: SecretsManagerType where
  "HashicorpVault = ''hashicorp-vault''"

definition SupportedServiceManager :: "SecretsManagerType \<Rightarrow> bool" where
  "SupportedServiceManager service = (service = HashicorpVault \<or> service = Local)"

section \<open>Example inputs\<close>

text \<open>
  The scenarios of the spec (8): an epoch of ten blocks and the validators \<open>A\<close>, \<open>B\<close>,
  \<open>C\<close>, with \<open>D\<close> and \<open>E\<close> outside the set. The two nonces are the all-ones and the
  all-zeroes word.
\<close>

definition exampleConfig :: Config where
  "exampleConfig = \<lparr>epochSize = 10, nonceAuthVote = 0xFFFFFFFFFFFFFFFF, nonceDropVote = 0\<rparr>"

definition addrA :: address where "addrA = 1"
definition addrB :: address where "addrB = 2"
definition addrC :: address where "addrC = 3"
definition addrD :: address where "addrD = 4"
definition addrE :: address where "addrE = 5"

definition exampleState :: "Vote list \<Rightarrow> HookState" where
  "exampleState vs =
     \<lparr>snap = \<lparr>SnapNumber = 2, Set = [addrA, addrB, addrC], Votes = vs\<rparr>, calls = []\<rparr>"

text \<open>The same with \<open>D\<close> admitted.\<close>

definition exampleState4 :: "Vote list \<Rightarrow> HookState" where
  "exampleState4 vs =
     \<lparr>snap = \<lparr>SnapNumber = 6, Set = [addrA, addrB, addrC, addrD], Votes = vs\<rparr>, calls = []\<rparr>"

section \<open>Properties of processHeadersHook\<close>

text \<open>The defining equations of the example inputs, for evaluating the hook on them.\<close>

lemmas example_defs = exampleConfig_def exampleState_def exampleState4_def
  addrA_def addrB_def addrC_def addrD_def addrE_def ZeroAddress_def

subsection \<open>The signed epoch test on 64-bit words\<close>

lemma sint_small:
  fixes y :: "64 word"
  assumes "uint y < 2 ^ 63"
  shows "sint y = uint y"
proof -
  have "- (2 ^ 63) \<le> (0::int)" by simp
  also have "0 \<le> uint y" by simp
  finally have "- (2 ^ 63) \<le> uint y" .
  with assms have "signed_take_bit 63 (uint y) = uint y"
    by (simp only: signed_take_bit_int_eq_self)
  then show ?thesis by (simp add: sint_uint)
qed

lemma sint_big:
  fixes y :: "64 word"
  assumes "2 ^ 63 \<le> uint y"
  shows "sint y < 0"
proof -
  have "uint y < 2 ^ 64" using uint_lt2p [of y] by simp
  with assms have "uint y div 2 ^ 63 = 1" by simp
  then have "bit (uint y) 63" by (simp add: bit_iff_odd)
  then show ?thesis by (simp add: sint_uint)
qed

lemma sint_pos_iff:
  fixes y :: "64 word"
  shows "0 < sint y \<longleftrightarrow> 0 < uint y \<and> uint y < 2 ^ 63"
proof (cases "uint y < 2 ^ 63")
  case True
  then show ?thesis by (simp add: sint_small)
next
  case False
  then have "sint y < 0" by (simp add: sint_big)
  with False show ?thesis by simp
qed

lemma uint_sub2_if:
  fixes x :: "64 word"
  shows "uint (x - 2) = (if 2 \<le> uint x then uint x - 2 else uint x + 2 ^ 64 - 2)"
  by (simp add: uint_sub_if')

lemma epoch_range:
  fixes k :: int
  assumes "0 \<le> k" and "k < 2 ^ 64"
  shows "(0 < (if 2 \<le> k then k - 2 else k + 2 ^ 64 - 2) \<and>
          (if 2 \<le> k then k - 2 else k + 2 ^ 64 - 2) < 2 ^ 63) \<longleftrightarrow>
         (2 < k \<and> k < 2 ^ 63 + 2)"
  using assms by auto

lemma epoch_positive_iff:
  fixes x :: "64 word"
  shows "0 <s x - 2 \<longleftrightarrow> 2 < uint x \<and> uint x < 2 ^ 63 + 2"
proof -
  have "0 \<le> uint x" and "uint x < 2 ^ 64"
    using uint_lt2p [of x] by simp_all
  then have "(0 < uint (x - 2) \<and> uint (x - 2) < 2 ^ 63) \<longleftrightarrow>
      (2 < uint x \<and> uint x < 2 ^ 63 + 2)"
    unfolding uint_sub2_if by (rule epoch_range)
  then show ?thesis by (simp only: word_sless_alt sint_0 sint_pos_iff)
qed

lemma purge_no_wrap:
  fixes n E :: "64 word"
  assumes "2 \<le> uint n div uint E"
  shows "(uint n div uint E - 2) * uint E < 2 ^ 64"
proof -
  have "0 \<le> uint E" by simp
  then have "(uint n div uint E - 2) * uint E \<le> uint n div uint E * uint E"
    by (intro mult_right_mono) simp_all
  also have "\<dots> = uint n - uint n mod uint E"
    by (simp add: minus_mod_eq_div_mult)
  also have "\<dots> \<le> uint n"
  proof (cases "uint E = 0")
    case True
    then show ?thesis by simp
  next
    case False
    then have "0 < uint E" using uint_ge_0 [of E] by linarith
    then have "0 \<le> uint n mod uint E" by (rule pos_mod_sign)
    then show ?thesis by simp
  qed
  also have "\<dots> < 2 ^ 64" using uint_lt2p [of n] by simp
  finally show ?thesis .
qed

lemma purge_block:
  fixes n E :: "64 word"
  assumes "2 \<le> uint n div uint E"
  shows "(n div E - 2) * E = word_of_int ((uint n div uint E - 2) * uint E)"
proof -
  have "uint (n div E - 2) = uint n div uint E - 2"
    using assms by (simp add: uint_sub2_if uint_div)
  then have "word_of_int (uint n div uint E - 2) = n div E - 2"
    by (metis word_of_int_uint)
  then show ?thesis by (simp add: word_of_int_uint flip: wi_hom_mult)
qed

subsection \<open>The branches of the hook\<close>

lemma hook_checkpoint:
  assumes "epochSize cfg \<noteq> 0" and "Number h mod epochSize cfg = 0"
  shows "processHeadersHook cfg h p st =
    (None, st\<lparr>snap := (snap st)\<lparr>Votes := []\<rparr>,
              calls := calls st @ SaveSnap h ((snap st)\<lparr>Votes := []\<rparr>) #
                (if 0 <s Number h div epochSize cfg - 2
                 then [DeleteLower ((Number h div epochSize cfg - 2) * epochSize cfg)]
                 else [])\<rparr>)"
  using assms by (simp add: processHeadersHook_def Let_def)

lemma hook_no_vote:
  assumes "epochSize cfg \<noteq> 0" and "Number h mod epochSize cfg \<noteq> 0"
    and "Miner h = ZeroAddress"
  shows "processHeadersHook cfg h p st = (None, st)"
  using assms by (simp add: processHeadersHook_def Let_def)

lemma hook_bad_nonce:
  assumes "epochSize cfg \<noteq> 0" and "Number h mod epochSize cfg \<noteq> 0"
    and "Miner h \<noteq> ZeroAddress"
    and "Nonce h \<noteq> nonceAuthVote cfg" and "Nonce h \<noteq> nonceDropVote cfg"
  shows "processHeadersHook cfg h p st = (Some IncorrectVoteNonce, st)"
  using assms by (simp add: processHeadersHook_def Let_def)

lemma hook_satisfied:
  assumes "epochSize cfg \<noteq> 0" and "Number h mod epochSize cfg \<noteq> 0"
    and "Miner h \<noteq> ZeroAddress"
    and "Nonce h = nonceAuthVote cfg \<or> Nonce h = nonceDropVote cfg"
    and "Includes (Set (snap st)) (Miner h) = (Nonce h = nonceAuthVote cfg)"
  shows "processHeadersHook cfg h p st = (None, st)"
  using assms by (simp add: processHeadersHook_def Let_def)

lemma hook_duplicate:
  assumes "epochSize cfg \<noteq> 0" and "Number h mod epochSize cfg \<noteq> 0"
    and "Miner h \<noteq> ZeroAddress"
    and "Nonce h = nonceAuthVote cfg \<or> Nonce h = nonceDropVote cfg"
    and "Includes (Set (snap st)) (Miner h) = (Nonce h \<noteq> nonceAuthVote cfg)"
    and "1 < Count (snap st) (\<lambda>v. Validator v = p \<and> Address v = Miner h)"
  shows "processHeadersHook cfg h p st = (Some MoreThanOneProposal, st)"
  using assms by (simp add: processHeadersHook_def Let_def)

text \<open>
  The vote branch past its guards, in closed form: \<open>pending\<close> is the vote list the tally is
  taken on.
\<close>

lemma hook_vote:
  assumes "epochSize cfg \<noteq> 0" and "Number h mod epochSize cfg \<noteq> 0"
    and "Miner h \<noteq> ZeroAddress"
    and "Nonce h = nonceAuthVote cfg \<or> Nonce h = nonceDropVote cfg"
    and "Includes (Set (snap st)) (Miner h) = (Nonce h \<noteq> nonceAuthVote cfg)"
    and "Count (snap st) (\<lambda>v. Validator v = p \<and> Address v = Miner h) \<le> 1"
    and "pending = (if Count (snap st) (\<lambda>v. Validator v = p \<and> Address v = Miner h) = 0
          then Votes (snap st) @ [\<lparr>Validator = p, Address = Miner h,
                 Authorize = (Nonce h = nonceAuthVote cfg)\<rparr>]
          else Votes (snap st))"
  shows "processHeadersHook cfg h p st =
    (None, st\<lparr>snap :=
       (if length (Set (snap st)) div 2 < length (filter (\<lambda>v. Address v = Miner h) pending)
        then (snap st)\<lparr>
          Set := (if Nonce h = nonceAuthVote cfg then Set (snap st) @ [Miner h]
                  else filter (\<lambda>a. a \<noteq> Miner h) (Set (snap st))),
          Votes := filter (\<lambda>v. Address v \<noteq> Miner h \<and>
                      (Nonce h = nonceAuthVote cfg \<or> Validator v \<noteq> Miner h)) pending\<rparr>
        else (snap st)\<lparr>Votes := pending\<rparr>)\<rparr>)"
  using assms
  by (auto simp add: processHeadersHook_def Let_def Count_def Len_def Includes_def Add_def
      Del_def RemoveVotes_def conj_commute)

lemma hook_error_cases:
  assumes "fst (processHeadersHook cfg h p st) = Some e"
  shows "processHeadersHook cfg h p st = (Some e, st)"
  using assms
  by (auto simp add: processHeadersHook_def Let_def split: if_splits)

text \<open>
  Every successful run is a checkpoint, leaves the state as it was, or is the vote branch in
  its closed form.
\<close>

lemma hook_success_cases [consumes 1, case_names checkpoint unchanged vote]:
  assumes run: "processHeadersHook cfg h p st = (None, st')"
  obtains "snap st' = (snap st)\<lparr>Votes := []\<rparr>"
  | "st' = st"
  | pending where
      "Includes (Set (snap st)) (Miner h) = (Nonce h \<noteq> nonceAuthVote cfg)"
      "Count (snap st) (\<lambda>v. Validator v = p \<and> Address v = Miner h) \<le> 1"
      "pending = (if Count (snap st) (\<lambda>v. Validator v = p \<and> Address v = Miner h) = 0
          then Votes (snap st) @ [\<lparr>Validator = p, Address = Miner h,
                 Authorize = (Nonce h = nonceAuthVote cfg)\<rparr>]
          else Votes (snap st))"
      "snap st' =
       (if length (Set (snap st)) div 2 < length (filter (\<lambda>v. Address v = Miner h) pending)
        then (snap st)\<lparr>
          Set := (if Nonce h = nonceAuthVote cfg then Set (snap st) @ [Miner h]
                  else filter (\<lambda>a. a \<noteq> Miner h) (Set (snap st))),
          Votes := filter (\<lambda>v. Address v \<noteq> Miner h \<and>
                      (Nonce h = nonceAuthVote cfg \<or> Validator v \<noteq> Miner h)) pending\<rparr>
        else (snap st)\<lparr>Votes := pending\<rparr>)"
proof -
  have E: "epochSize cfg \<noteq> 0"
    using run by (auto simp add: processHeadersHook_def)
  show thesis
  proof (cases "Number h mod epochSize cfg = 0")
    case True
    from hook_checkpoint [OF E True, of p st] run
    have "snap st' = (snap st)\<lparr>Votes := []\<rparr>" by auto
    then show thesis by (rule that(1))
  next
    case N: False
    show thesis
    proof (cases "Miner h = ZeroAddress")
      case True
      from hook_no_vote [OF E N True, of p st] run show thesis by (simp add: that(2))
    next
      case M: False
      from hook_bad_nonce [OF E N M, of p st] run
      have V: "Nonce h = nonceAuthVote cfg \<or> Nonce h = nonceDropVote cfg" by auto
      show thesis
      proof (cases "Includes (Set (snap st)) (Miner h) = (Nonce h = nonceAuthVote cfg)")
        case True
        from hook_satisfied [OF E N M V True, of p] run show thesis by (simp add: that(2))
      next
        case False
        then have G: "Includes (Set (snap st)) (Miner h) = (Nonce h \<noteq> nonceAuthVote cfg)"
          by auto
        from hook_duplicate [OF E N M V G, of p] run
        have C: "Count (snap st) (\<lambda>v. Validator v = p \<and> Address v = Miner h) \<le> 1"
          by (auto simp add: not_less [symmetric])
        from hook_vote [OF E N M V G C refl] run show thesis
          by (intro that(3) [OF G C refl]) auto
      qed
    qed
  qed
qed

lemma length_filter_filter_le:
  "length (filter P (filter Q xs)) \<le> length (filter P xs)"
  by (induction xs) auto

subsection \<open>Error returns\<close>

text \<open>
  C9: whenever \<^verbatim>\<open>processHeadersHook\<close> returns an error, the state it leaves is the state it
  was given: the snapshot (validator set and votes) is unchanged and no invocation of
  \<^verbatim>\<open>saveSnap\<close> or \<^verbatim>\<open>deleteLower\<close> has been recorded. This covers the two
  \<^verbatim>\<open>fmt.Errorf\<close> returns and the division panic alike.
\<close>

theorem processHeadersHook_error_unchanged:
  assumes "processHeadersHook cfg h p st = (Some e, st')"
  shows "st' = st \<and> snap st' = snap st \<and> calls st' = calls st"
  using assms hook_error_cases [of cfg h p st e] by simp

theorem processHeadersHook_error_unchanged_witness:
  "processHeadersHook exampleConfig \<lparr>Number = 3, Miner = addrD, Nonce = 0xDEADBEEFDEADBEEF\<rparr>
       addrA (exampleState []) = (Some IncorrectVoteNonce, exampleState [])
   \<and> snap (exampleState []) = snap (exampleState [])
   \<and> calls (exampleState []) = calls (exampleState [])"
proof -
  have run: "processHeadersHook exampleConfig
      \<lparr>Number = 3, Miner = addrD, Nonce = 0xDEADBEEFDEADBEEF\<rparr> addrA (exampleState [])
      = (Some IncorrectVoteNonce, exampleState [])"
    by (simp add: processHeadersHook_def exampleConfig_def addrD_def ZeroAddress_def)
  from processHeadersHook_error_unchanged [OF run] run show ?thesis by simp
qed

text \<open>
  C4: on a header that is not a checkpoint (with a non-zero \<^verbatim>\<open>epochSize\<close>), the hook fails
  with the incorrect-vote-nonce error exactly when the miner is not the zero address and the
  nonce is neither \<^verbatim>\<open>nonceAuthVote\<close> nor \<^verbatim>\<open>nonceDropVote\<close>; when the miner is the zero
  address it returns \<^verbatim>\<open>nil\<close> and leaves the state as it was, whatever the nonce.
\<close>

theorem processHeadersHook_invalid_nonce:
  assumes "epochSize cfg \<noteq> 0" and "Number h mod epochSize cfg \<noteq> 0"
  shows "(fst (processHeadersHook cfg h p st) = Some IncorrectVoteNonce \<longleftrightarrow>
            Miner h \<noteq> ZeroAddress \<and> Nonce h \<noteq> nonceAuthVote cfg \<and> Nonce h \<noteq> nonceDropVote cfg)
       \<and> (Miner h = ZeroAddress \<longrightarrow> processHeadersHook cfg h p st = (None, st))"
  using assms
  by (simp add: processHeadersHook_def Let_def)

theorem processHeadersHook_invalid_nonce_witness:
  "fst (processHeadersHook exampleConfig
          \<lparr>Number = 3, Miner = addrD, Nonce = 0xDEADBEEFDEADBEEF\<rparr> addrA (exampleState []))
     = Some IncorrectVoteNonce
   \<and> processHeadersHook exampleConfig
          \<lparr>Number = 3, Miner = ZeroAddress, Nonce = 0xDEADBEEFDEADBEEF\<rparr> addrA (exampleState [])
     = (None, exampleState [])"
proof -
  have E: "epochSize exampleConfig \<noteq> 0"
    by (simp add: exampleConfig_def)
  have N: "Number \<lparr>Number = 3, Miner = m, Nonce = 0xDEADBEEFDEADBEEF\<rparr>
      mod epochSize exampleConfig \<noteq> 0" for m
    by (simp add: exampleConfig_def)
  from processHeadersHook_invalid_nonce [OF E N, of addrD addrA "exampleState []"]
  have "fst (processHeadersHook exampleConfig
          \<lparr>Number = 3, Miner = addrD, Nonce = 0xDEADBEEFDEADBEEF\<rparr> addrA (exampleState []))
     = Some IncorrectVoteNonce"
    by (simp add: exampleConfig_def addrD_def ZeroAddress_def)
  moreover from processHeadersHook_invalid_nonce [OF E N, of ZeroAddress addrA "exampleState []"]
  have "processHeadersHook exampleConfig
          \<lparr>Number = 3, Miner = ZeroAddress, Nonce = 0xDEADBEEFDEADBEEF\<rparr> addrA (exampleState [])
     = (None, exampleState [])"
    by simp
  ultimately show ?thesis by simp
qed

subsection \<open>Proposals that are already satisfied\<close>

text \<open>
  C6: on a header that is not a checkpoint, with a miner other than the zero address, if the
  nonce is \<^verbatim>\<open>nonceAuthVote\<close> and the miner is already in the validator set, or the nonce is
  \<^verbatim>\<open>nonceDropVote\<close> and the miner is not in the set, the hook returns \<^verbatim>\<open>nil\<close> and leaves
  the snapshot and the recorded invocations unchanged. The two nonces are parameters of the
  model and are taken to be distinct values, as two sentinels are.
\<close>

theorem processHeadersHook_already_satisfied:
  assumes "epochSize cfg \<noteq> 0" and "Number h mod epochSize cfg \<noteq> 0"
    and "Miner h \<noteq> ZeroAddress"
    and "nonceAuthVote cfg \<noteq> nonceDropVote cfg"
    and "(Nonce h = nonceAuthVote cfg \<and> Includes (Set (snap st)) (Miner h)) \<or>
         (Nonce h = nonceDropVote cfg \<and> \<not> Includes (Set (snap st)) (Miner h))"
  shows "processHeadersHook cfg h p st = (None, st)"
  using assms by (auto simp add: hook_satisfied)

theorem processHeadersHook_already_satisfied_witness:
  "processHeadersHook exampleConfig
       \<lparr>Number = 3, Miner = addrA, Nonce = nonceAuthVote exampleConfig\<rparr> addrB (exampleState [])
     = (None, exampleState [])
   \<and> processHeadersHook exampleConfig
       \<lparr>Number = 3, Miner = addrD, Nonce = nonceDropVote exampleConfig\<rparr> addrB (exampleState [])
     = (None, exampleState [])"
proof -
  have "processHeadersHook exampleConfig
       \<lparr>Number = 3, Miner = addrA, Nonce = nonceAuthVote exampleConfig\<rparr> addrB (exampleState [])
     = (None, exampleState [])"
    by (rule processHeadersHook_already_satisfied)
      (simp_all add: exampleConfig_def exampleState_def Includes_def ZeroAddress_def
        addrA_def addrB_def addrC_def)
  moreover have "processHeadersHook exampleConfig
       \<lparr>Number = 3, Miner = addrD, Nonce = nonceDropVote exampleConfig\<rparr> addrB (exampleState [])
     = (None, exampleState [])"
    by (rule processHeadersHook_already_satisfied)
      (simp_all add: exampleConfig_def exampleState_def Includes_def ZeroAddress_def
        addrA_def addrB_def addrC_def addrD_def)
  ultimately show ?thesis by simp
qed

subsection \<open>The checkpoint branch\<close>

text \<open>
  On every header whose number is a multiple of a non-zero \<^verbatim>\<open>epochSize\<close>, whatever its
  miner and nonce, the hook returns \<^verbatim>\<open>nil\<close>, leaves the validator set alone, clears the
  votes and only then invokes \<^verbatim>\<open>saveSnap(header)\<close>: the snapshot the callback finds has
  no votes. With \<open>q\<close> the integer quotient of the number by \<^verbatim>\<open>epochSize\<close>, the hook
  next invokes \<^verbatim>\<open>deleteLower((q - 2) * epochSize)\<close> when \<open>2 < q\<close> and \<open>q < 2 ^ 63 + 2\<close>,
  and the product fits 64 bits. From \<open>q = 2 ^ 63 + 2\<close> on, \<^verbatim>\<open>int(number/epochSize) - 2\<close>
  is negative in the 64-bit \<^verbatim>\<open>int\<close> and nothing is purged.
\<close>

lemma hook_checkpoint_range:
  assumes "epochSize cfg \<noteq> 0" and "Number h mod epochSize cfg = 0"
    and "q = uint (Number h) div uint (epochSize cfg)"
  shows "processHeadersHook cfg h p st =
      (None, st\<lparr>snap := (snap st)\<lparr>Votes := []\<rparr>,
                calls := calls st @ SaveSnap h ((snap st)\<lparr>Votes := []\<rparr>) #
                  (if 2 < q \<and> q < 2 ^ 63 + 2
                   then [DeleteLower (word_of_int ((q - 2) * uint (epochSize cfg)))]
                   else [])\<rparr>)
    \<and> (2 < q \<longrightarrow> (q - 2) * uint (epochSize cfg) < 2 ^ 64)"
proof -
  have q: "uint (Number h div epochSize cfg) = q"
    by (simp add: assms(3) uint_div)
  have "0 <s Number h div epochSize cfg - 2 \<longleftrightarrow> 2 < q \<and> q < 2 ^ 63 + 2"
    by (simp only: epoch_positive_iff q)
  moreover have "(Number h div epochSize cfg - 2) * epochSize cfg =
      word_of_int ((q - 2) * uint (epochSize cfg))" if "2 < q"
    using that purge_block [of "Number h" "epochSize cfg"] by (simp add: assms(3))
  moreover have "(q - 2) * uint (epochSize cfg) < 2 ^ 64" if "2 < q"
    using that purge_no_wrap [of "Number h" "epochSize cfg"] by (simp add: assms(3))
  ultimately show ?thesis
    by (simp add: hook_checkpoint [OF assms(1,2)])
qed

lemma hook_checkpoint_example:
  "processHeadersHook exampleConfig
       \<lparr>Number = 50, Miner = addrD, Nonce = 0xDEADBEEFDEADBEEF\<rparr> addrA
       (exampleState [\<lparr>Validator = addrA, Address = addrD, Authorize = True\<rparr>])
     = (None, \<lparr>snap = \<lparr>SnapNumber = 2, Set = [addrA, addrB, addrC], Votes = []\<rparr>,
               calls = [SaveSnap \<lparr>Number = 50, Miner = addrD, Nonce = 0xDEADBEEFDEADBEEF\<rparr>
                          \<lparr>SnapNumber = 2, Set = [addrA, addrB, addrC], Votes = []\<rparr>,
                        DeleteLower 30]\<rparr>)"
proof -
  have E: "epochSize exampleConfig \<noteq> 0"
    by (simp add: exampleConfig_def)
  have N: "Number \<lparr>Number = 50, Miner = addrD, Nonce = 0xDEADBEEFDEADBEEF\<rparr>
      mod epochSize exampleConfig = 0"
    by (simp add: exampleConfig_def)
  from hook_checkpoint_range [OF E N refl, of addrA
      "exampleState [\<lparr>Validator = addrA, Address = addrD, Authorize = True\<rparr>]"]
  show ?thesis
    by (simp add: exampleConfig_def exampleState_def)
qed


subsection \<open>The vote branch\<close>

text \<open>
  C5: on a vote header past the guard for already satisfied proposals, let \<open>c\<close> be the number
  of votes of the snapshot cast by the proposer for the miner. If \<open>1 < c\<close> the hook fails with
  the more-than-one-proposal error and leaves the state as it was. If \<open>c = 0\<close> it succeeds and
  the vote list handed to the tally is the old one followed by exactly one new vote
  (proposer, miner, authorize); if \<open>c = 1\<close> it succeeds and that list is the old one, nothing
  appended. \<open>closeBallot\<close> is what the tally step then does to the list: nothing unless the
  majority is reached.
\<close>

theorem processHeadersHook_cast_vote:
  assumes "epochSize cfg \<noteq> 0" and "Number h mod epochSize cfg \<noteq> 0"
    and "Miner h \<noteq> ZeroAddress"
    and "Nonce h = nonceAuthVote cfg \<or> Nonce h = nonceDropVote cfg"
    and "Includes (Set (snap st)) (Miner h) = (Nonce h \<noteq> nonceAuthVote cfg)"
    and "c = Count (snap st) (\<lambda>v. Validator v = p \<and> Address v = Miner h)"
    and "new = \<lparr>Validator = p, Address = Miner h, Authorize = (Nonce h = nonceAuthVote cfg)\<rparr>"
    and "closeBallot = (\<lambda>vs.
          if Len (Set (snap st)) div 2 < length (filter (\<lambda>v. Address v = Miner h) vs)
          then filter (\<lambda>v. Address v \<noteq> Miner h \<and>
                 (Nonce h = nonceAuthVote cfg \<or> Validator v \<noteq> Miner h)) vs
          else vs)"
  shows "(1 < c \<longrightarrow> processHeadersHook cfg h p st = (Some MoreThanOneProposal, st)) \<and>
    (c = 0 \<longrightarrow> fst (processHeadersHook cfg h p st) = None \<and>
       Votes (snap (snd (processHeadersHook cfg h p st))) = closeBallot (Votes (snap st) @ [new])) \<and>
    (c = 1 \<longrightarrow> fst (processHeadersHook cfg h p st) = None \<and>
       Votes (snap (snd (processHeadersHook cfg h p st))) = closeBallot (Votes (snap st)))"
proof (intro conjI impI)
  assume "1 < c"
  with assms(6) show "processHeadersHook cfg h p st = (Some MoreThanOneProposal, st)"
    by (simp add: hook_duplicate [OF assms(1-5)])
next
  assume "c = 0"
  with assms(6) have c: "Count (snap st) (\<lambda>v. Validator v = p \<and> Address v = Miner h) = 0"
    by simp
  then have le: "Count (snap st) (\<lambda>v. Validator v = p \<and> Address v = Miner h) \<le> 1"
    by simp
  note run = hook_vote [OF assms(1-5) le refl]
  show "fst (processHeadersHook cfg h p st) = None"
    by (simp add: run)
  show "Votes (snap (snd (processHeadersHook cfg h p st))) = closeBallot (Votes (snap st) @ [new])"
    unfolding run using c by (simp add: assms(7,8) Len_def)
next
  assume "c = 1"
  with assms(6) have c: "Count (snap st) (\<lambda>v. Validator v = p \<and> Address v = Miner h) = 1"
    by simp
  then have le: "Count (snap st) (\<lambda>v. Validator v = p \<and> Address v = Miner h) \<le> 1"
    by simp
  note run = hook_vote [OF assms(1-5) le refl]
  show "fst (processHeadersHook cfg h p st) = None"
    by (simp add: run)
  show "Votes (snap (snd (processHeadersHook cfg h p st))) = closeBallot (Votes (snap st))"
    unfolding run using c by (simp add: assms(7,8) Len_def)
qed

theorem processHeadersHook_cast_vote_witness:
  "processHeadersHook exampleConfig
        \<lparr>Number = 3, Miner = addrD, Nonce = nonceAuthVote exampleConfig\<rparr> addrA
        (exampleState
          [\<lparr>Validator = addrA, Address = addrD, Authorize = True\<rparr>,
           \<lparr>Validator = addrA, Address = addrD, Authorize = True\<rparr>])
      = (Some MoreThanOneProposal, exampleState
          [\<lparr>Validator = addrA, Address = addrD, Authorize = True\<rparr>,
           \<lparr>Validator = addrA, Address = addrD, Authorize = True\<rparr>])
   \<and> Votes (snap (snd (processHeadersHook exampleConfig
        \<lparr>Number = 3, Miner = addrD, Nonce = nonceAuthVote exampleConfig\<rparr> addrA
        (exampleState []))))
      = [\<lparr>Validator = addrA, Address = addrD, Authorize = True\<rparr>]
   \<and> Votes (snap (snd (processHeadersHook exampleConfig
        \<lparr>Number = 3, Miner = addrD, Nonce = nonceAuthVote exampleConfig\<rparr> addrA
        (exampleState [\<lparr>Validator = addrA, Address = addrD, Authorize = True\<rparr>]))))
      = [\<lparr>Validator = addrA, Address = addrD, Authorize = True\<rparr>]"
proof -
  let ?h = "\<lparr>Number = 3, Miner = addrD, Nonce = nonceAuthVote exampleConfig\<rparr>"
  let ?v = "\<lparr>Validator = addrA, Address = addrD, Authorize = True\<rparr>"
  have E: "epochSize exampleConfig \<noteq> 0"
    by (simp add: exampleConfig_def)
  have N: "Number ?h mod epochSize exampleConfig \<noteq> 0"
    by (simp add: exampleConfig_def)
  have M: "Miner ?h \<noteq> ZeroAddress"
    by (simp add: example_defs)
  have V: "Nonce ?h = nonceAuthVote exampleConfig \<or> Nonce ?h = nonceDropVote exampleConfig"
    by simp
  have G: "Includes (Set (snap (exampleState vs))) (Miner ?h)
      = (Nonce ?h \<noteq> nonceAuthVote exampleConfig)" for vs
    by (simp add: Includes_def example_defs)
  from processHeadersHook_cast_vote [OF E N M V G [of "[?v, ?v]"] refl refl refl, of addrA]
  have "processHeadersHook exampleConfig ?h addrA (exampleState [?v, ?v])
      = (Some MoreThanOneProposal, exampleState [?v, ?v])"
    by (simp add: Count_def exampleState_def)
  moreover
  from processHeadersHook_cast_vote [OF E N M V G [of "[]"] refl refl refl, of addrA]
  have "Votes (snap (snd (processHeadersHook exampleConfig ?h addrA (exampleState [])))) = [?v]"
    by (simp add: Count_def Len_def exampleState_def)
  moreover
  from processHeadersHook_cast_vote [OF E N M V G [of "[?v]"] refl refl refl, of addrA]
  have "Votes (snap (snd (processHeadersHook exampleConfig ?h addrA (exampleState [?v])))) = [?v]"
    by (simp add: Count_def Len_def exampleState_def)
  ultimately show ?thesis by simp
qed

text \<open>
  C1: on a vote header past the guards (not a checkpoint, miner other than the zero address,
  one of the two nonces, proposal not already satisfied, at most one earlier vote by the
  proposer for the miner), \<open>tally\<close> is the number of pending votes whose candidate is the
  miner, whatever their direction. The validator set changes exactly when \<open>tally\<close> exceeds half
  the size of the set (integer division, the set as it is at that moment). In that case, on
  authorize the miner is added to the set; on drop the miner is removed from the set and the
  votes the miner cast are purged; either way the votes naming the miner as candidate are
  purged, and no other vote is. Otherwise the set is unchanged and the pending votes stay.
\<close>

theorem processHeadersHook_majority:
  assumes "epochSize cfg \<noteq> 0" and "Number h mod epochSize cfg \<noteq> 0"
    and "Miner h \<noteq> ZeroAddress"
    and "Nonce h = nonceAuthVote cfg \<or> Nonce h = nonceDropVote cfg"
    and "authorize = (Nonce h = nonceAuthVote cfg)"
    and "Includes (Set (snap st)) (Miner h) = (\<not> authorize)"
    and "Count (snap st) (\<lambda>v. Validator v = p \<and> Address v = Miner h) \<le> 1"
    and "pending = (if Count (snap st) (\<lambda>v. Validator v = p \<and> Address v = Miner h) = 0
          then Votes (snap st) @ [\<lparr>Validator = p, Address = Miner h, Authorize = authorize\<rparr>]
          else Votes (snap st))"
    and "tally = length (filter (\<lambda>v. Address v = Miner h) pending)"
    and "processHeadersHook cfg h p st = (r, st')"
  shows "r = None \<and> calls st' = calls st \<and>
    (Set (snap st') \<noteq> Set (snap st) \<longleftrightarrow> Len (Set (snap st)) div 2 < tally) \<and>
    (Len (Set (snap st)) div 2 < tally \<longrightarrow>
       (authorize \<longrightarrow>
          Set (snap st') = Add (Set (snap st)) (Miner h) \<and>
          Includes (Set (snap st')) (Miner h) \<and>
          Votes (snap st') = filter (\<lambda>v. Address v \<noteq> Miner h) pending) \<and>
       (\<not> authorize \<longrightarrow>
          Set (snap st') = Del (Set (snap st)) (Miner h) \<and>
          \<not> Includes (Set (snap st')) (Miner h) \<and>
          Votes (snap st') =
            filter (\<lambda>v. Validator v \<noteq> Miner h \<and> Address v \<noteq> Miner h) pending)) \<and>
    (\<not> Len (Set (snap st)) div 2 < tally \<longrightarrow>
       Set (snap st') = Set (snap st) \<and> Votes (snap st') = pending)"
proof -
  have G: "Includes (Set (snap st)) (Miner h) = (Nonce h \<noteq> nonceAuthVote cfg)"
    using assms(5,6) by simp
  have P: "pending = (if Count (snap st) (\<lambda>v. Validator v = p \<and> Address v = Miner h) = 0
          then Votes (snap st) @ [\<lparr>Validator = p, Address = Miner h,
                 Authorize = (Nonce h = nonceAuthVote cfg)\<rparr>]
          else Votes (snap st))"
    using assms(5,8) by simp
  note run = hook_vote [OF assms(1-4) G assms(7) P]
  have drop: "filter (\<lambda>a. a \<noteq> Miner h) (Set (snap st)) \<noteq> Set (snap st)" if "\<not> authorize"
  proof
    assume "filter (\<lambda>a. a \<noteq> Miner h) (Set (snap st)) = Set (snap st)"
    then have "Miner h \<notin> set (Set (snap st))"
      by (auto simp add: filter_id_conv)
    with that assms(6) show False by (simp add: Includes_def)
  qed
  from run assms(10) have r: "r = None" and st': "st' = st\<lparr>snap :=
       (if length (Set (snap st)) div 2 < tally
        then (snap st)\<lparr>
          Set := (if authorize then Set (snap st) @ [Miner h]
                  else filter (\<lambda>a. a \<noteq> Miner h) (Set (snap st))),
          Votes := filter (\<lambda>v. Address v \<noteq> Miner h \<and>
                      (authorize \<or> Validator v \<noteq> Miner h)) pending\<rparr>
        else (snap st)\<lparr>Votes := pending\<rparr>)\<rparr>"
    by (simp_all add: assms(5,9))
  show ?thesis
    using assms(6) drop
    by (auto simp add: r st' Len_def Add_def Del_def Includes_def conj_commute)
qed

theorem processHeadersHook_majority_witness:
  "length (filter (\<lambda>v. Address v = addrD)
       [\<lparr>Validator = addrA, Address = addrD, Authorize = False\<rparr>,
        \<lparr>Validator = addrB, Address = addrD, Authorize = True\<rparr>]) = 2
   \<and> Len (Set (snap (exampleState []))) div 2 = 1
   \<and> processHeadersHook exampleConfig
        \<lparr>Number = 4, Miner = addrD, Nonce = nonceAuthVote exampleConfig\<rparr> addrB
        (exampleState [\<lparr>Validator = addrA, Address = addrD, Authorize = False\<rparr>])
      = (None, \<lparr>snap = \<lparr>SnapNumber = 2, Set = [addrA, addrB, addrC, addrD], Votes = []\<rparr>,
                calls = []\<rparr>)"
proof -
  let ?st = "exampleState [\<lparr>Validator = addrA, Address = addrD, Authorize = False\<rparr>]"
  let ?h = "\<lparr>Number = 4, Miner = addrD, Nonce = nonceAuthVote exampleConfig\<rparr>"
  obtain r st' where run: "processHeadersHook exampleConfig ?h addrB ?st = (r, st')"
    by (cases "processHeadersHook exampleConfig ?h addrB ?st")
  have E: "epochSize exampleConfig \<noteq> 0"
    by (simp add: exampleConfig_def)
  have N: "Number ?h mod epochSize exampleConfig \<noteq> 0"
    by (simp add: exampleConfig_def)
  have M: "Miner ?h \<noteq> ZeroAddress"
    by (simp add: example_defs)
  have V: "Nonce ?h = nonceAuthVote exampleConfig \<or> Nonce ?h = nonceDropVote exampleConfig"
    by simp
  have G: "Includes (Set (snap ?st)) (Miner ?h) = (\<not> True)"
    by (simp add: Includes_def example_defs)
  have C: "Count (snap ?st) (\<lambda>v. Validator v = addrB \<and> Address v = Miner ?h) \<le> 1"
    by (simp add: Count_def example_defs)
  have A: "True = (Nonce ?h = nonceAuthVote exampleConfig)"
    by simp
  from processHeadersHook_majority [OF E N M V A G C refl refl run]
  have "r = None" and "calls st' = calls ?st"
    and "Set (snap st') = [addrA, addrB, addrC, addrD]" and "Votes (snap st') = []"
    by (simp_all add: Count_def Len_def Add_def example_defs)
  moreover have "SnapNumber (snap st') = 2"
    using run by (simp add: processHeadersHook_def Includes_def Count_def Len_def Add_def
        RemoveVotes_def example_defs split: if_splits) auto
  ultimately have "(r, st') = (None, \<lparr>snap = \<lparr>SnapNumber = 2,
      Set = [addrA, addrB, addrC, addrD], Votes = []\<rparr>, calls = []\<rparr>)"
    by (cases st', cases "snap st'") (simp add: exampleState_def)
  with run show ?thesis
    by (simp add: Len_def example_defs)
qed

subsection \<open>Invariants\<close>

text \<open>
  C3, for a proposer who is a validator: voter membership is preserved by every successful
  run of the hook whose proposer is a member of the validator set of the snapshot it is
  given.
\<close>

theorem processHeadersHook_voter_membership:
  assumes "voterMembership (snap st)"
    and "Includes (Set (snap st)) p"
    and "processHeadersHook cfg h p st = (None, st')"
  shows "voterMembership (snap st')"
  using assms(3)
proof (cases rule: hook_success_cases)
  case checkpoint
  then show ?thesis by (simp add: voterMembership_def)
next
  case unchanged
  with assms(1) show ?thesis by simp
next
  case (vote pending)
  from assms(1,2) vote(3)
  have P: "\<forall>v \<in> set pending. Validator v \<in> set (Set (snap st))"
    by (auto simp add: voterMembership_def Includes_def)
  show ?thesis
    unfolding vote(4) using P
    by (auto simp add: voterMembership_def Includes_def)
qed

theorem processHeadersHook_voter_membership_witness:
  "voterMembership (snap (exampleState4
       [\<lparr>Validator = addrA, Address = addrD, Authorize = False\<rparr>,
        \<lparr>Validator = addrB, Address = addrD, Authorize = False\<rparr>,
        \<lparr>Validator = addrD, Address = addrE, Authorize = True\<rparr>,
        \<lparr>Validator = addrA, Address = addrE, Authorize = True\<rparr>]))
   \<and> Includes (Set (snap (exampleState4 []))) addrC
   \<and> processHeadersHook exampleConfig
        \<lparr>Number = 7, Miner = addrD, Nonce = nonceDropVote exampleConfig\<rparr> addrC
        (exampleState4
          [\<lparr>Validator = addrA, Address = addrD, Authorize = False\<rparr>,
           \<lparr>Validator = addrB, Address = addrD, Authorize = False\<rparr>,
           \<lparr>Validator = addrD, Address = addrE, Authorize = True\<rparr>,
           \<lparr>Validator = addrA, Address = addrE, Authorize = True\<rparr>])
      = (None, \<lparr>snap = \<lparr>SnapNumber = 6, Set = [addrA, addrB, addrC],
                         Votes = [\<lparr>Validator = addrA, Address = addrE, Authorize = True\<rparr>]\<rparr>,
                calls = []\<rparr>)
   \<and> voterMembership \<lparr>SnapNumber = 6, Set = [addrA, addrB, addrC],
         Votes = [\<lparr>Validator = addrA, Address = addrE, Authorize = True\<rparr>]\<rparr>"
proof -
  let ?st = "exampleState4
       [\<lparr>Validator = addrA, Address = addrD, Authorize = False\<rparr>,
        \<lparr>Validator = addrB, Address = addrD, Authorize = False\<rparr>,
        \<lparr>Validator = addrD, Address = addrE, Authorize = True\<rparr>,
        \<lparr>Validator = addrA, Address = addrE, Authorize = True\<rparr>]"
  let ?h = "\<lparr>Number = 7, Miner = addrD, Nonce = nonceDropVote exampleConfig\<rparr>"
  have inv: "voterMembership (snap ?st)"
    by (simp add: voterMembership_def Includes_def example_defs)
  have mem: "Includes (Set (snap ?st)) addrC"
    by (simp add: Includes_def example_defs)
  have run: "processHeadersHook exampleConfig ?h addrC ?st
      = (None, \<lparr>snap = \<lparr>SnapNumber = 6, Set = [addrA, addrB, addrC],
                         Votes = [\<lparr>Validator = addrA, Address = addrE, Authorize = True\<rparr>]\<rparr>,
                calls = []\<rparr>)"
    by (simp add: processHeadersHook_def Includes_def Count_def Len_def Del_def
        RemoveVotes_def example_defs)
  from processHeadersHook_voter_membership [OF inv mem run] inv mem run
  show ?thesis by (simp add: exampleState4_def)
qed

text \<open>
  Without the membership of the proposer the statement of C3 fails: the hook appends the
  vote of \<open>E\<close>, who is outside the validator set, without looking \<open>E\<close> up in the set.
\<close>

theorem processHeadersHook_voter_membership_counterexample:
  "voterMembership (snap (exampleState []))
   \<and> processHeadersHook exampleConfig
        \<lparr>Number = 3, Miner = addrD, Nonce = nonceAuthVote exampleConfig\<rparr> addrE (exampleState [])
      = (None, exampleState [\<lparr>Validator = addrE, Address = addrD, Authorize = True\<rparr>])
   \<and> \<not> voterMembership
        (snap (exampleState [\<lparr>Validator = addrE, Address = addrD, Authorize = True\<rparr>]))"
  by (simp add: processHeadersHook_def voterMembership_def Includes_def Count_def Len_def
      example_defs)

text \<open>
  C7: vote uniqueness is preserved by every successful run of the hook: if the snapshot it
  is given has at most one vote for every pair of a voter and a candidate, so has the
  snapshot it leaves.
\<close>

theorem processHeadersHook_vote_uniqueness:
  assumes "\<forall>v c. Count (snap st) (\<lambda>x. Validator x = v \<and> Address x = c) \<le> 1"
    and "processHeadersHook cfg h p st = (None, st')"
  shows "\<forall>v c. Count (snap st') (\<lambda>x. Validator x = v \<and> Address x = c) \<le> 1"
  using assms(2)
proof (cases rule: hook_success_cases)
  case checkpoint
  then show ?thesis by (simp add: Count_def)
next
  case unchanged
  with assms(1) show ?thesis by simp
next
  case (vote pending)
  have P: "length (filter (\<lambda>x. Validator x = v \<and> Address x = c) pending) \<le> 1" for v c
  proof (cases "Count (snap st) (\<lambda>v. Validator v = p \<and> Address v = Miner h) = 0")
    case True
    show ?thesis
    proof (cases "v = p \<and> c = Miner h")
      case True
      with \<open>Count (snap st) (\<lambda>v. Validator v = p \<and> Address v = Miner h) = 0\<close> vote(3)
      show ?thesis by (simp add: Count_def)
    next
      case False
      with True vote(3) assms(1) [rule_format, of v c]
      show ?thesis by (auto simp add: Count_def)
    qed
  next
    case False
    with vote(3) assms(1) [rule_format, of v c] show ?thesis by (simp add: Count_def)
  qed
  have "length (filter (\<lambda>x. Validator x = v \<and> Address x = c) (Votes (snap st'))) \<le> 1" for v c
  proof (cases "length (Set (snap st)) div 2
      < length (filter (\<lambda>v. Address v = Miner h) pending)")
    case True
    with vote(4) have "Votes (snap st') = filter (\<lambda>v. Address v \<noteq> Miner h \<and>
        (Nonce h = nonceAuthVote cfg \<or> Validator v \<noteq> Miner h)) pending"
      by simp
    then show ?thesis
      using length_filter_filter_le [of "\<lambda>x. Validator x = v \<and> Address x = c" _ pending] P [of v c]
      by (simp only:) (rule order_trans)
  next
    case False
    with vote(4) P [of v c] show ?thesis by simp
  qed
  then show ?thesis by (simp add: Count_def)
qed

theorem processHeadersHook_vote_uniqueness_witness:
  "(\<forall>v c. Count (snap (exampleState [\<lparr>Validator = addrA, Address = addrD, Authorize = True\<rparr>]))
            (\<lambda>x. Validator x = v \<and> Address x = c) \<le> 1)
   \<and> processHeadersHook exampleConfig
        \<lparr>Number = 4, Miner = addrE, Nonce = nonceAuthVote exampleConfig\<rparr> addrA
        (exampleState [\<lparr>Validator = addrA, Address = addrD, Authorize = True\<rparr>])
      = (None, exampleState
              [\<lparr>Validator = addrA, Address = addrD, Authorize = True\<rparr>,
               \<lparr>Validator = addrA, Address = addrE, Authorize = True\<rparr>])
   \<and> (\<forall>v c. Count (snap (exampleState
              [\<lparr>Validator = addrA, Address = addrD, Authorize = True\<rparr>,
               \<lparr>Validator = addrA, Address = addrE, Authorize = True\<rparr>]))
            (\<lambda>x. Validator x = v \<and> Address x = c) \<le> 1)"
proof -
  let ?st = "exampleState [\<lparr>Validator = addrA, Address = addrD, Authorize = True\<rparr>]"
  let ?h = "\<lparr>Number = 4, Miner = addrE, Nonce = nonceAuthVote exampleConfig\<rparr>"
  have inv: "\<forall>v c. Count (snap ?st) (\<lambda>x. Validator x = v \<and> Address x = c) \<le> 1"
    by (simp add: Count_def exampleState_def)
  have run: "processHeadersHook exampleConfig ?h addrA ?st
      = (None, exampleState
              [\<lparr>Validator = addrA, Address = addrD, Authorize = True\<rparr>,
               \<lparr>Validator = addrA, Address = addrE, Authorize = True\<rparr>])"
    by (simp add: processHeadersHook_def Includes_def Count_def Len_def example_defs)
  from processHeadersHook_vote_uniqueness [OF inv run] inv run
  show ?thesis by simp
qed

section \<open>Properties of SupportedServiceManager\<close>

text \<open>
  C10: \<^verbatim>\<open>SupportedServiceManager\<close> returns true exactly for the two declared manager types,
  the strings \<^verbatim>\<open>local\<close> and \<^verbatim>\<open>hashicorp-vault\<close>, and false for every other string.
\<close>

theorem SupportedServiceManager_iff:
  "SupportedServiceManager service \<longleftrightarrow> service = ''local'' \<or> service = ''hashicorp-vault''"
  by (auto simp add: SupportedServiceManager_def Local_def HashicorpVault_def)


end
